theory Spec2Isabelle
  imports Main "HOL-Library.Word"
begin

unbundle bit_operations_syntax

section \<open>Data model of package wallet\<close>

text \<open>
  Go's \<^verbatim>\<open>byte\<close> and \<^verbatim>\<open>uint8\<close> are 8-bit words; a \<^verbatim>\<open>[]byte\<close> is a list of them.
  A Go \<^verbatim>\<open>string\<close> is a sequence of bytes as well and is modelled by \<open>string\<close>
  (a list of 8-bit characters), so that \<open>length\<close> counts bytes as Go's \<^verbatim>\<open>len\<close> does.
\<close>

type_synonym byte = "8 word"

text \<open>\<^verbatim>\<open>core.PublicKey\<close> of go-spacemesh: the raw bytes of a public key.\<close>

type_synonym PublicKey = "byte list"

text \<open>
  The errors the package returns, one constructor for each error value of
  \<^verbatim>\<open>wallet.go\<close> and of the library functions modelled here:
  \<^item> \<open>InvalidAccountCount\<close>: \<^verbatim>\<open>fmt.Errorf("invalid number of accounts")\<close>;
  \<^item> \<open>WhitespaceViolation\<close>: \<^verbatim>\<open>errWhitespace\<close>;
  \<^item> \<open>InvalidMnemonic\<close>: \<^verbatim>\<open>fmt.Errorf("invalid mnemonic")\<close>;
  \<^item> \<open>InvalidThreshold\<close>: \<^verbatim>\<open>fmt.Errorf("invalid threshold")\<close>;
  \<^item> \<open>InvalidParticipantCount\<close>: \<^verbatim>\<open>fmt.Errorf("invalid number of participants")\<close>;
  \<^item> \<open>MakeslicePanic\<close>: the run-time panic of \<^verbatim>\<open>make\<close> with a negative capacity;
  \<^item> \<open>ErrLength\<close> and \<open>InvalidByteError c\<close>: the two errors of \<^verbatim>\<open>encoding/hex\<close>, for a
    string of odd length and for a character \<open>c\<close> that is no hex digit;
  \<^item> \<open>External e\<close>: an error returned by a function outside \<^verbatim>\<open>wallet.go\<close> and
    passed on unchanged, with its message \<open>e\<close>.
\<close>

datatype error =
    InvalidAccountCount
  | WhitespaceViolation
  | InvalidMnemonic
  | InvalidThreshold
  | InvalidParticipantCount
  | MakeslicePanic
  | ErrLength
  | InvalidByteError char
  | External string

section \<open>The address templates of go-spacemesh\<close>

text \<open>
  The two \<^verbatim>\<open>SpawnArguments\<close> structs (of the wallet template and of the multisig
  template) that \<^verbatim>\<open>core.ComputePrincipal\<close> accepts through its \<^verbatim>\<open>scale.Encodable\<close>
  argument.
\<close>

datatype SpawnArguments =
    WalletSpawnArguments (PublicKey: "byte list")
  | MultisigSpawnArguments (Required: byte) (PublicKeys: "PublicKey list")

text \<open>
  The part of go-spacemesh that \<^verbatim>\<open>wallet.go\<close> calls is not part of this repository
  and is a parameter of the model: the two template addresses, the hash
  \<^verbatim>\<open>core.ComputePrincipal\<close>, and \<^verbatim>\<open>Address.String\<close>, which formats an address under
  the network prefix it reads from the process-wide setting (its first argument here).
\<close>

record 'addr genvm =
  WalletTemplateAddress :: 'addr
  MultisigTemplateAddress :: 'addr
  ComputePrincipal :: "'addr \<Rightarrow> SpawnArguments \<Rightarrow> 'addr"
  AddressString :: "string \<Rightarrow> 'addr \<Rightarrow> string"

text \<open>The process-wide state: the network prefix that \<^verbatim>\<open>types.SetNetworkHRP\<close> writes.\<close>

record globals =
  networkHRP :: string

definition SetNetworkHRP :: "string \<Rightarrow> globals \<Rightarrow> globals" where
  "SetNetworkHRP hrp s = s\<lparr>networkHRP := hrp\<rparr>"

text \<open>
  Go's builtin \<^verbatim>\<open>copy(dst, src)\<close>: the first \<open>min (len dst) (len src)\<close> elements of
  \<open>src\<close> overwrite those of \<open>dst\<close>; the result is the new content of \<open>dst\<close>.
\<close>

definition copy :: "'a list \<Rightarrow> 'a list \<Rightarrow> 'a list" where
  "copy dst src = (let n = min (length dst) (length src) in take n src @ drop n dst)"

text \<open>\<^verbatim>\<open>ed25519.PublicKeySize\<close>.\<close>

definition PublicKeySize :: nat where
  "PublicKeySize = 32"

text \<open>The conversion \<^verbatim>\<open>uint8(n)\<close> of an \<^verbatim>\<open>int\<close>: the low 8 bits.\<close>

definition uint8 :: "int \<Rightarrow> byte" where
  "uint8 n = word_of_int n"

section \<open>Addresses\<close>

text \<open>
  \<^verbatim>\<open>PubkeyToAddress\<close> (wallet.go, line 179): sets the process-wide network prefix,
  copies the key into a zeroed array of 32 bytes, and formats the principal of the
  wallet template. The model returns the string and the process-wide state it leaves.
\<close>

definition PubkeyToAddress ::
  "'addr genvm \<Rightarrow> byte list \<Rightarrow> string \<Rightarrow> globals \<Rightarrow> string \<times> globals" where
  "PubkeyToAddress g pubkey hrp s =
     (let s1 = SetNetworkHRP hrp s;
          key = copy (replicate PublicKeySize 0) pubkey;
          walletArgs = WalletSpawnArguments key;
          walletAddress = ComputePrincipal g (WalletTemplateAddress g) walletArgs
      in (AddressString g (networkHRP s1) walletAddress, s1))"

text \<open>
  \<^verbatim>\<open>SpawnMultiSig\<close> (wallet.go, line 189). The threshold is a \<^verbatim>\<open>uint8\<close>; the number of
  participants is an \<^verbatim>\<open>int\<close> and is converted to \<^verbatim>\<open>uint8\<close> for the comparison. On an
  error Go returns the zero address beside it; the model returns the error alone.
\<close>

definition SpawnMultiSig ::
  "'addr genvm \<Rightarrow> byte \<Rightarrow> PublicKey list \<Rightarrow> error + 'addr" where
  "SpawnMultiSig g threshold participants =
     (let numParticipants = int (length participants) in
      if threshold < 1 \<or> threshold > uint8 numParticipants then Inl InvalidThreshold
      else if numParticipants \<le> 1 then Inl InvalidParticipantCount
      else
        let multisigArgs = MultisigSpawnArguments threshold participants;
            multisigAddress = ComputePrincipal g (MultisigTemplateAddress g) multisigArgs
        in Inr multisigAddress)"

text \<open>
  A concrete instance of the go-spacemesh interface, for evaluating the functions at
  concrete inputs: addresses are byte lists, the principal is the template followed by
  the bytes of the arguments, and an address is printed as the prefix, a separator and
  one letter for each byte.
\<close>

definition sample_genvm :: "byte list genvm" where
  "sample_genvm =
     \<lparr>WalletTemplateAddress = [1],
      MultisigTemplateAddress = [2],
      ComputePrincipal = (\<lambda>t a. t @ (case a of
          WalletSpawnArguments k \<Rightarrow> k
        | MultisigSpawnArguments r ks \<Rightarrow> r # concat ks)),
      AddressString = (\<lambda>hrp a. hrp @ ''1'' @ map (\<lambda>b. char_of (97 + unat b mod 26)) a)\<rparr>"

section \<open>The Go library functions used by the mnemonic check\<close>

text \<open>
  \<^verbatim>\<open>unicode/utf8\<close>: the rune at the start of a string and its width in bytes, as a
  \<^verbatim>\<open>range\<close> loop over a string decodes it. An invalid or truncated sequence decodes to
  \<open>RuneError\<close> with width 1. Bytes are read as numbers with \<open>of_char\<close>.
\<close>

definition RuneError :: nat where
  "RuneError = 0xFFFD"

definition continuation :: "nat \<Rightarrow> nat \<Rightarrow> nat \<Rightarrow> bool" where
  "continuation lo hi b = (lo \<le> b \<and> b \<le> hi)"

fun DecodeRuneInString :: "string \<Rightarrow> nat \<times> nat" where
  "DecodeRuneInString [] = (RuneError, 0)"
| "DecodeRuneInString (c # cs) =
     (let s0 = (of_char c :: nat) in
      if s0 < 0x80 then (s0, 1)
      else if s0 < 0xC2 then (RuneError, 1)
      else if s0 < 0xE0 then
        (case cs of
           c1 # _ \<Rightarrow>
             let s1 = (of_char c1 :: nat) in
             if continuation 0x80 0xBF s1
             then ((s0 - 0xC0) * 64 + (s1 - 0x80), 2)
             else (RuneError, 1)
         | _ \<Rightarrow> (RuneError, 1))
      else if s0 < 0xF0 then
        (case cs of
           c1 # c2 # _ \<Rightarrow>
             let s1 = (of_char c1 :: nat); s2 = (of_char c2 :: nat) in
             if continuation (if s0 = 0xE0 then 0xA0 else 0x80) (if s0 = 0xED then 0x9F else 0xBF) s1
                \<and> continuation 0x80 0xBF s2
             then ((s0 - 0xE0) * 4096 + (s1 - 0x80) * 64 + (s2 - 0x80), 3)
             else (RuneError, 1)
         | _ \<Rightarrow> (RuneError, 1))
      else if s0 < 0xF5 then
        (case cs of
           c1 # c2 # c3 # _ \<Rightarrow>
             let s1 = (of_char c1 :: nat); s2 = (of_char c2 :: nat); s3 = (of_char c3 :: nat) in
             if continuation (if s0 = 0xF0 then 0x90 else 0x80) (if s0 = 0xF4 then 0x8F else 0xBF) s1
                \<and> continuation 0x80 0xBF s2 \<and> continuation 0x80 0xBF s3
             then ((s0 - 0xF0) * 262144 + (s1 - 0x80) * 4096 + (s2 - 0x80) * 64 + (s3 - 0x80), 4)
             else (RuneError, 1)
         | _ \<Rightarrow> (RuneError, 1))
      else (RuneError, 1))"

declare DecodeRuneInString.simps [simp del]

text \<open>
  \<^verbatim>\<open>unicode.IsSpace\<close>: in Latin-1 the characters tab, line feed, vertical tab, form feed,
  carriage return, space, U+0085 and U+00A0; beyond it the code points with the property
  White_Space.
\<close>

definition IsSpace :: "nat \<Rightarrow> bool" where
  "IsSpace r =
     (if r \<le> 0xFF
      then r = 0x09 \<or> r = 0x0A \<or> r = 0x0B \<or> r = 0x0C \<or> r = 0x0D \<or> r = 0x20
           \<or> r = 0x85 \<or> r = 0xA0
      else r = 0x1680 \<or> (0x2000 \<le> r \<and> r \<le> 0x200A) \<or> r = 0x2028 \<or> r = 0x2029
           \<or> r = 0x202F \<or> r = 0x205F \<or> r = 0x3000)"

text \<open>
  \<^verbatim>\<open>strings.FieldsFunc\<close>: the loop over the runes of the string. \<open>cur\<close> holds the bytes of
  the field that has started and not ended yet (the source keeps its start index, which
  is non-negative exactly when \<open>cur\<close> is not empty); a rune that satisfies \<open>f\<close> ends it.
  \<^verbatim>\<open>strings.Fields\<close> splits around runs of white space; its separate loop for strings of
  ASCII bytes returns the same fields.
\<close>

fun FieldsFunc_from :: "(nat \<Rightarrow> bool) \<Rightarrow> string \<Rightarrow> string \<Rightarrow> string list" where
  "FieldsFunc_from f cur [] = (if cur \<noteq> [] then [cur] else [])"
| "FieldsFunc_from f cur (c # cs) =
     (if f (fst (DecodeRuneInString (c # cs))) then
        (if cur \<noteq> []
         then cur # FieldsFunc_from f [] (drop (snd (DecodeRuneInString (c # cs)) - 1) cs)
         else FieldsFunc_from f [] (drop (snd (DecodeRuneInString (c # cs)) - 1) cs))
      else
        FieldsFunc_from f (cur @ c # take (snd (DecodeRuneInString (c # cs)) - 1) cs)
          (drop (snd (DecodeRuneInString (c # cs)) - 1) cs))"

definition FieldsFunc :: "string \<Rightarrow> (nat \<Rightarrow> bool) \<Rightarrow> string list" where
  "FieldsFunc s f = FieldsFunc_from f [] s"

definition Fields :: "string \<Rightarrow> string list" where
  "Fields s = FieldsFunc s IsSpace"

text \<open>\<^verbatim>\<open>strings.Join\<close>: the elements with the separator between each two.\<close>

fun Join :: "string list \<Rightarrow> string \<Rightarrow> string" where
  "Join [] sep = []"
| "Join [x] sep = x"
| "Join (x # y # ys) sep = x @ sep @ Join (y # ys) sep"

section \<open>Wallets\<close>

text \<open>
  The functions \<^verbatim>\<open>wallet.go\<close> calls that are not in it are parameters of the model:
  \<^item> \<^verbatim>\<open>common.MaxAccountsPerWallet\<close> and \<^verbatim>\<open>common.NowTimeString\<close> (the clock's reading);
  \<^item> \<^verbatim>\<open>bip39.IsMnemonicValid\<close> and \<^verbatim>\<open>bip39.NewSeed\<close>;
  \<^item> \<^verbatim>\<open>NewMasterKeyPair\<close>, \<^verbatim>\<open>NewMasterKeyPairFromLedger\<close> (the answer of the device) and
    the method \<^verbatim>\<open>NewChildKeyPair\<close> of \<^verbatim>\<open>EDKeyPair\<close>, each returning a key pair or the
    message of its error.
  The type \<^verbatim>\<open>EDKeyPair\<close> is the type parameter \<open>'kp\<close>.
\<close>

record 'kp keylib =
  MaxAccountsPerWallet :: int
  NowTimeString :: string
  IsMnemonicValid :: "string \<Rightarrow> bool"
  NewSeed :: "string \<Rightarrow> string \<Rightarrow> byte list"
  NewMasterKeyPair :: "byte list \<Rightarrow> string + 'kp"
  NewMasterKeyPairFromLedger :: "string + 'kp"
  NewChildKeyPair :: "'kp \<Rightarrow> byte list \<Rightarrow> int \<Rightarrow> string + 'kp"

record walletMetadata =
  DisplayName :: string
  Created :: string
  GenesisID :: string

record 'kp walletSecrets =
  Mnemonic :: string
  MasterKeypair :: 'kp
  Accounts :: "'kp list"

record 'kp Wallet =
  Meta :: walletMetadata
  Secrets :: "'kp walletSecrets"

text \<open>
  \<^verbatim>\<open>accountsFromMaster\<close> (wallet.go, line 163). The loop runs \<open>i\<close> from 0 while \<open>i < n\<close>,
  appends each child key pair, and returns at the first error without the accounts
  collected so far. \<^verbatim>\<open>make\<close> panics when the capacity \<open>n\<close> is negative. The counters
  are Go's \<^verbatim>\<open>int\<close>; \<open>i + 1\<close> cannot overflow, since \<open>i < n\<close>.
\<close>

function accountsFromMaster_loop ::
  "'kp keylib \<Rightarrow> 'kp \<Rightarrow> byte list \<Rightarrow> int \<Rightarrow> int \<Rightarrow> 'kp list \<Rightarrow> error + 'kp list" where
  "accountsFromMaster_loop L masterKeypair masterSeed n i accounts =
     (if i < n then
        (case NewChildKeyPair L masterKeypair masterSeed i of
           Inl err \<Rightarrow> Inl (External err)
         | Inr acct \<Rightarrow>
             accountsFromMaster_loop L masterKeypair masterSeed n (i + 1) (accounts @ [acct]))
      else Inr accounts)"
  by pat_completeness auto
termination
  by (relation "measure (\<lambda>(L, masterKeypair, masterSeed, n, i, accounts). nat (n - i))") auto

definition accountsFromMaster ::
  "'kp keylib \<Rightarrow> 'kp \<Rightarrow> byte list \<Rightarrow> int \<Rightarrow> error + 'kp list" where
  "accountsFromMaster L masterKeypair masterSeed n =
     (if n < 0 then Inl MakeslicePanic
      else accountsFromMaster_loop L masterKeypair masterSeed n 0 [])"

text \<open>\<^verbatim>\<open>walletFromMnemonicAndAccounts\<close> (wallet.go, line 144).\<close>

definition walletFromMnemonicAndAccounts ::
  "'kp keylib \<Rightarrow> string \<Rightarrow> 'kp \<Rightarrow> 'kp list \<Rightarrow> error + 'kp Wallet" where
  "walletFromMnemonicAndAccounts L m masterKp kp =
     Inr \<lparr>Meta = \<lparr>DisplayName = ''Main Wallet'', Created = NowTimeString L, GenesisID = []\<rparr>,
          Secrets = \<lparr>Mnemonic = m, MasterKeypair = masterKp, Accounts = kp\<rparr>\<rparr>"

text \<open>\<^verbatim>\<open>NewMultiWalletFromMnemonic\<close> (wallet.go, line 98).\<close>

definition NewMultiWalletFromMnemonic ::
  "'kp keylib \<Rightarrow> string \<Rightarrow> int \<Rightarrow> error + 'kp Wallet" where
  "NewMultiWalletFromMnemonic L m n =
     (if n < 0 \<or> n > MaxAccountsPerWallet L then Inl InvalidAccountCount
      else if m \<noteq> Join (Fields m) '' '' then Inl WhitespaceViolation
      else if \<not> IsMnemonicValid L m then Inl InvalidMnemonic
      else
        let seed = NewSeed L m [] in
        case NewMasterKeyPair L seed of
          Inl err \<Rightarrow> Inl (External err)
        | Inr masterKeyPair \<Rightarrow>
            (case accountsFromMaster L masterKeyPair seed n of
               Inl err \<Rightarrow> Inl err
             | Inr accounts \<Rightarrow> walletFromMnemonicAndAccounts L m masterKeyPair accounts))"

text \<open>\<^verbatim>\<open>NewMultiWalletFromLedger\<close> (wallet.go, line 128); the seed is the empty slice.\<close>

definition NewMultiWalletFromLedger :: "'kp keylib \<Rightarrow> int \<Rightarrow> error + 'kp Wallet" where
  "NewMultiWalletFromLedger L n =
     (if n < 0 \<or> n > MaxAccountsPerWallet L then Inl InvalidAccountCount
      else
        case NewMasterKeyPairFromLedger L of
          Inl err \<Rightarrow> Inl (External err)
        | Inr masterKeyPair \<Rightarrow>
            (case accountsFromMaster L masterKeyPair [] n of
               Inl err \<Rightarrow> Inl err
             | Inr accounts \<Rightarrow>
                 walletFromMnemonicAndAccounts L ''(none)'' masterKeyPair accounts))"

text \<open>
  A concrete instance of the key library, for evaluating the functions at concrete
  inputs: at most 128 accounts, a phrase is valid when it has 12 words, a key pair is a
  byte list, the master key pair is the seed, a child key pair is the master followed by
  its index, and the derivation fails from index 3 on.
\<close>

definition sample_keylib :: "byte list keylib" where
  "sample_keylib =
     \<lparr>MaxAccountsPerWallet = 128,
      NowTimeString = ''2022-01-01T00-00-00.000Z'',
      IsMnemonicValid = (\<lambda>m. length (Fields m) = 12),
      NewSeed = (\<lambda>m passphrase. map of_char (take 4 m @ passphrase)),
      NewMasterKeyPair = (\<lambda>seed. if seed = [] then Inl ''empty seed'' else Inr seed),
      NewMasterKeyPairFromLedger = Inr [76],
      NewChildKeyPair = (\<lambda>kp seed i.
        if i < 3 then Inr (kp @ [word_of_int i]) else Inl ''no such child'')\<rparr>"

section \<open>Hex-encoded fields\<close>

text \<open>
  \<^verbatim>\<open>encoding/hex\<close>. \<^verbatim>\<open>EncodeToString\<close> writes, for each byte, the digit of its high four
  bits and the digit of its low four bits, taken from \<^verbatim>\<open>hextable\<close>.
\<close>

definition hextable :: string where
  "hextable = ''0123456789abcdef''"

fun EncodeToString :: "byte list \<Rightarrow> string" where
  "EncodeToString [] = []"
| "EncodeToString (v # src) =
     hextable ! unat (drop_bit 4 v) # hextable ! unat (v AND 0x0f) # EncodeToString src"

text \<open>
  The value of a hex digit, or \<open>None\<close> for any other character: \<open>'0'\<close> to \<open>'9'\<close> (codes 48
  to 57), \<open>'a'\<close> to \<open>'f'\<close> (97 to 102) and \<open>'A'\<close> to \<open>'F'\<close> (65 to 70).
\<close>

definition fromHexChar :: "char \<Rightarrow> byte option" where
  "fromHexChar c =
     (let n = (of_char c :: nat) in
      if 48 \<le> n \<and> n \<le> 57 then Some (of_nat (n - 48))
      else if 97 \<le> n \<and> n \<le> 102 then Some (of_nat (n - 97 + 10))
      else if 65 \<le> n \<and> n \<le> 70 then Some (of_nat (n - 65 + 10))
      else None)"

text \<open>
  \<^verbatim>\<open>hex.Decode\<close>: the loop over the pairs of characters, each pair giving one byte; the
  first character that is no hex digit ends it with \<^verbatim>\<open>InvalidByteError\<close>. A last
  character without a partner is checked as well, and then the length is reported as
  odd. \<open>dst\<close> holds the bytes decoded so far: \<^verbatim>\<open>hex.DecodeString\<close> returns them beside the
  error.
\<close>

fun Decode_from :: "byte list \<Rightarrow> string \<Rightarrow> byte list \<times> error option" where
  "Decode_from dst (p # q # src) =
     (case fromHexChar p of
        None \<Rightarrow> (dst, Some (InvalidByteError p))
      | Some a \<Rightarrow>
          (case fromHexChar q of
             None \<Rightarrow> (dst, Some (InvalidByteError q))
           | Some b \<Rightarrow> Decode_from (dst @ [push_bit 4 a OR b]) src))"
| "Decode_from dst [c] =
     (case fromHexChar c of
        None \<Rightarrow> (dst, Some (InvalidByteError c))
      | Some a \<Rightarrow> (dst, Some ErrLength))"
| "Decode_from dst [] = (dst, None)"

definition DecodeString :: "string \<Rightarrow> byte list \<times> error option" where
  "DecodeString s = Decode_from [] s"

text \<open>
  \<^verbatim>\<open>encoding/json\<close> is a parameter of the model: \<open>Marshal\<close> is \<^verbatim>\<open>json.Marshal\<close> of a Go
  string, and \<open>Unmarshal\<close> is \<^verbatim>\<open>json.Unmarshal\<close> of the data into a fresh string variable;
  each returns its result or the message of its error.
\<close>

record jsonlib =
  Marshal :: "string \<Rightarrow> string + byte list"
  Unmarshal :: "byte list \<Rightarrow> string + string"

text \<open>
  \<^verbatim>\<open>hexEncodedCiphertext.MarshalJSON\<close> (wallet.go, line 50) and
  \<^verbatim>\<open>hexEncodedCiphertext.UnmarshalJSON\<close> (line 54). \<open>c\<close> is the value the receiver points
  to; \<^verbatim>\<open>UnmarshalJSON\<close> returns its new value and the error. When \<^verbatim>\<open>json.Unmarshal\<close>
  fails the receiver is left as it is; otherwise it is assigned what
  \<^verbatim>\<open>hex.DecodeString\<close> returns, also when that is an error.
\<close>

definition MarshalJSON :: "jsonlib \<Rightarrow> byte list \<Rightarrow> error + byte list" where
  "MarshalJSON J c =
     (case Marshal J (EncodeToString c) of
        Inl err \<Rightarrow> Inl (External err)
      | Inr data \<Rightarrow> Inr data)"

definition UnmarshalJSON :: "jsonlib \<Rightarrow> byte list \<Rightarrow> byte list \<Rightarrow> byte list \<times> error option" where
  "UnmarshalJSON J c data =
     (case Unmarshal J data of
        Inl err \<Rightarrow> (c, Some (External err))
      | Inr hexString \<Rightarrow> DecodeString hexString)"

text \<open>
  The words of the specification: a hex digit, a well-formed hex string (an even number
  of hex digits), and the lowercase and uppercase forms of a string of ASCII characters.
\<close>

definition isHexDigit :: "char \<Rightarrow> bool" where
  "isHexDigit c =
     (let n = (of_char c :: nat) in
      (48 \<le> n \<and> n \<le> 57) \<or> (97 \<le> n \<and> n \<le> 102) \<or> (65 \<le> n \<and> n \<le> 70))"

definition wellFormedHex :: "string \<Rightarrow> bool" where
  "wellFormedHex s = (even (length s) \<and> list_all isHexDigit s)"

definition toLowerASCII :: "char \<Rightarrow> char" where
  "toLowerASCII c =
     (let n = (of_char c :: nat) in if 65 \<le> n \<and> n \<le> 90 then char_of (n + 32) else c)"

definition toUpperASCII :: "char \<Rightarrow> char" where
  "toUpperASCII c =
     (let n = (of_char c :: nat) in if 97 \<le> n \<and> n \<le> 122 then char_of (n - 32) else c)"

text \<open>
  A concrete instance of the JSON library, for evaluating the functions at concrete
  inputs: a string is written between double quotes and read back from between them
  (which is what \<^verbatim>\<open>encoding/json\<close> does for a string without quotes, backslashes,
  control characters and characters beyond ASCII), and \<^verbatim>\<open>null\<close> leaves the string
  variable empty.
\<close>

definition sample_json :: jsonlib where
  "sample_json =
     \<lparr>Marshal = (\<lambda>s. Inr (0x22 # map of_char s @ [0x22])),
      Unmarshal = (\<lambda>data.
        if data = [0x6e, 0x75, 0x6c, 0x6c] then Inr []
        else if 2 \<le> length data \<and> hd data = 0x22 \<and> last data = 0x22
        then Inr (map (\<lambda>b. char_of (unat b)) (butlast (tl data)))
        else Inl ''json: cannot unmarshal into Go value of type string'')\<rparr>"

text \<open>A phrase of 12 words separated by single spaces.\<close>

definition sample_mnemonic :: string where
  "sample_mnemonic =
     ''abandon abandon abandon abandon abandon abandon abandon abandon abandon abandon abandon about''"

section \<open>Properties of SpawnMultiSig\<close>

lemma unat_uint8_length: "unat (uint8 (int n)) = n mod 256"
  by (simp add: uint8_def unat_of_nat)

lemma byte_less_1: "(t < (1 :: byte)) = (unat t = 0)"
  by (simp add: word_less_nat_alt)

lemma byte_eq_1: "(t = (1 :: byte)) = (unat t = 1)"
  by (metis unat_1 unsigned_word_eqI)

lemma SpawnMultiSig_InvalidThreshold_iff:
  "(SpawnMultiSig g t ps = (Inl InvalidThreshold :: error + 'addr))
     = (t < 1 \<or> length ps mod 256 < unat t)"
proof -
  have gt: "(uint8 (int (length ps)) < t) = (length ps mod 256 < unat t)"
    by (simp add: word_less_nat_alt unat_uint8_length)
  show ?thesis
    unfolding SpawnMultiSig_def Let_def by (simp add: gt)
qed

text \<open>
  C9. The threshold is compared with the number of participants converted to
  \<^verbatim>\<open>uint8\<close>, that is, reduced modulo 256: for a list of any length (in particular of a
  length of 256 or more) the invalid-threshold error is returned exactly when the
  threshold is below 1 or above \<open>length ps mod 256\<close>. So with exactly 256 participants
  and threshold 1, which satisfies \<open>1 \<le> threshold \<le> length ps\<close>, the call fails with the
  invalid-threshold error.
\<close>

theorem SpawnMultiSig_compares_modulo_256:
  "unat (uint8 (int (length ps))) = length ps mod 256
   \<and> ((SpawnMultiSig g t ps = (Inl InvalidThreshold :: error + 'addr))
        = (t < 1 \<or> length ps mod 256 < unat t))
   \<and> (length ps = 256 \<longrightarrow>
        1 \<le> unat (1 :: byte) \<and> unat (1 :: byte) \<le> length ps
        \<and> SpawnMultiSig g 1 ps = (Inl InvalidThreshold :: error + 'addr))"
  by (simp add: unat_uint8_length SpawnMultiSig_InvalidThreshold_iff)

theorem SpawnMultiSig_compares_modulo_256_witness:
  "length (replicate 256 (replicate 32 (7 :: byte))) = 256
   \<and> SpawnMultiSig sample_genvm 1 (replicate 256 (replicate 32 7))
       = (Inl InvalidThreshold :: error + byte list)"
  using SpawnMultiSig_compares_modulo_256
    [where ps = "replicate 256 (replicate 32 (7 :: byte))" and g = sample_genvm and t = 1]
  by simp

text \<open>
  C5. For a participant list of 2 to 255 keys, the call fails with the invalid-threshold
  error exactly when the threshold is below 1 or above the number of participants;
  otherwise it succeeds, and the address it returns is the principal of the multisig
  template for the threshold and the participants: a function of the inputs alone, so
  equal across repeated calls with the same inputs.
\<close>

theorem SpawnMultiSig_threshold_check:
  assumes "2 \<le> length ps" and "length ps \<le> 255"
  shows "((SpawnMultiSig g t ps = (Inl InvalidThreshold :: error + 'addr))
            = (t < 1 \<or> length ps < unat t))
         \<and> (\<not> (t < 1 \<or> length ps < unat t) \<longrightarrow>
              SpawnMultiSig g t ps = (Inr (ComputePrincipal g (MultisigTemplateAddress g)
                (MultisigSpawnArguments t ps)) :: error + 'addr))"
proof -
  have m: "length ps mod 256 = length ps"
    using assms by simp
  have iff: "(SpawnMultiSig g t ps = (Inl InvalidThreshold :: error + 'addr))
               = (t < 1 \<or> length ps < unat t)"
    by (simp add: SpawnMultiSig_InvalidThreshold_iff m)
  have ok: "SpawnMultiSig g t ps = (Inr (ComputePrincipal g (MultisigTemplateAddress g)
              (MultisigSpawnArguments t ps)) :: error + 'addr)"
    if "\<not> (t < 1 \<or> length ps < unat t)"
  proof -
    have "\<not> (t < 1 \<or> uint8 (int (length ps)) < t)"
      using that by (simp add: word_less_nat_alt unat_uint8_length m)
    then show ?thesis
      using assms unfolding SpawnMultiSig_def Let_def by simp
  qed
  show ?thesis
    using iff ok by blast
qed

theorem SpawnMultiSig_threshold_check_witness:
  "2 \<le> length [replicate 32 (1 :: byte), replicate 32 2]
   \<and> length [replicate 32 (1 :: byte), replicate 32 2] \<le> 255
   \<and> SpawnMultiSig sample_genvm 0 [replicate 32 1, replicate 32 2]
       = (Inl InvalidThreshold :: error + byte list)
   \<and> SpawnMultiSig sample_genvm 3 [replicate 32 1, replicate 32 2]
       = (Inl InvalidThreshold :: error + byte list)
   \<and> SpawnMultiSig sample_genvm 2 [replicate 32 1, replicate 32 2]
       = (Inr ([2, 2] @ replicate 32 1 @ replicate 32 2) :: error + byte list)"
proof -
  let ?ps = "[replicate 32 (1 :: byte), replicate 32 2]"
  have len: "2 \<le> length ?ps" "length ?ps \<le> 255"
    by simp_all
  have "SpawnMultiSig sample_genvm 0 ?ps = (Inl InvalidThreshold :: error + byte list)"
    using SpawnMultiSig_threshold_check [OF len, where g = sample_genvm and t = 0] by simp
  moreover
  have "SpawnMultiSig sample_genvm 3 ?ps = (Inl InvalidThreshold :: error + byte list)"
    using SpawnMultiSig_threshold_check [OF len, where g = sample_genvm and t = 3] by simp
  moreover
  have "SpawnMultiSig sample_genvm 2 ?ps
          = (Inr ([2, 2] @ replicate 32 1 @ replicate 32 2) :: error + byte list)"
    using SpawnMultiSig_threshold_check [OF len, where g = sample_genvm and t = 2]
    by (simp add: sample_genvm_def)
  ultimately show ?thesis
    using len by simp
qed

text \<open>
  C2, as amended. Every call with fewer than 2 participants fails. The threshold is
  checked first, so the error is the invalid-participant-count error only for one
  participant with threshold 1, and the invalid-threshold error in every other case
  (in particular for one participant with threshold 2, and for no participant at all).
\<close>

theorem SpawnMultiSig_few_participants:
  "length ps < 2 \<Longrightarrow>
     SpawnMultiSig g t ps =
       (if length ps = 1 \<and> t = 1 then Inl InvalidParticipantCount
        else (Inl InvalidThreshold :: error + 'addr))"
proof -
  assume few: "length ps < 2"
  have gt: "(uint8 (int (length ps)) < t) = (length ps < unat t)"
    using few by (simp add: word_less_nat_alt unat_uint8_length)
  have split: "SpawnMultiSig g t ps =
      (if unat t = 0 \<or> length ps < unat t then Inl InvalidThreshold
       else if length ps \<le> 1 then Inl InvalidParticipantCount
       else Inr (ComputePrincipal g (MultisigTemplateAddress g) (MultisigSpawnArguments t ps)))"
    unfolding SpawnMultiSig_def Let_def gt byte_less_1 by simp
  show ?thesis
    unfolding split byte_eq_1 using few by auto
qed

theorem SpawnMultiSig_few_participants_witness:
  "length [replicate 32 (7 :: byte)] < 2
   \<and> SpawnMultiSig sample_genvm 1 [replicate 32 7]
       = (Inl InvalidParticipantCount :: error + byte list)
   \<and> SpawnMultiSig sample_genvm 2 [replicate 32 7]
       = (Inl InvalidThreshold :: error + byte list)
   \<and> SpawnMultiSig sample_genvm 1 []
       = (Inl InvalidThreshold :: error + byte list)"
proof -
  have one: "length [replicate 32 (7 :: byte)] < 2" and none: "length ([] :: PublicKey list) < 2"
    by simp_all
  show ?thesis
    using one
      SpawnMultiSig_few_participants [OF one, where g = sample_genvm and t = 1]
      SpawnMultiSig_few_participants [OF one, where g = sample_genvm and t = 2]
      SpawnMultiSig_few_participants [OF none, where g = sample_genvm and t = 1]
    by simp
qed

text \<open>
  C2, as stated, fails: with one participant and threshold 2 the error is the
  invalid-threshold error, not the invalid-participant-count error.
\<close>

theorem SpawnMultiSig_one_participant_threshold_2:
  "SpawnMultiSig sample_genvm 2 [replicate 32 7]
     = (Inl InvalidThreshold :: error + byte list)
   \<and> SpawnMultiSig sample_genvm 2 [replicate 32 7]
     \<noteq> (Inl InvalidParticipantCount :: error + byte list)"
  by (simp add: SpawnMultiSig_def uint8_def)

section \<open>Properties of PubkeyToAddress\<close>

lemma copy_zeroed_key:
  "copy (replicate PublicKeySize 0) pk = take 32 pk @ replicate (32 - length pk) (0 :: byte)"
  by (simp add: copy_def PublicKeySize_def min_def)

lemma PubkeyToAddress_eq:
  "PubkeyToAddress g pk hrp s =
     (AddressString g hrp (ComputePrincipal g (WalletTemplateAddress g)
        (WalletSpawnArguments (take 32 pk @ replicate (32 - length pk) 0))),
      s\<lparr>networkHRP := hrp\<rparr>)"
  by (simp add: PubkeyToAddress_def SetNetworkHRP_def copy_zeroed_key)

text \<open>
  C7. The address string depends on the public key and the prefix alone: two calls with
  the same key and prefix return the same string whatever the process-wide state each
  starts from, in particular when the second call follows the first.
\<close>

theorem PubkeyToAddress_deterministic:
  "fst (PubkeyToAddress g pk hrp s) = fst (PubkeyToAddress g pk hrp s')
   \<and> fst (PubkeyToAddress g pk hrp (snd (PubkeyToAddress g pk hrp s)))
       = fst (PubkeyToAddress g pk hrp s)"
  by (simp add: PubkeyToAddress_eq)

text \<open>
  C10. For a key of any length the function returns an address (its result type has no
  error): the address of the 32-byte array that holds the first 32 bytes of the key,
  padded with zeros on the right when the key is shorter. So two keys with the same
  padded first 32 bytes have the same address.
\<close>

theorem PubkeyToAddress_any_length:
  "fst (PubkeyToAddress g pk hrp s)
     = AddressString g hrp (ComputePrincipal g (WalletTemplateAddress g)
         (WalletSpawnArguments (take 32 pk @ replicate (32 - length pk) 0)))
   \<and> length (take 32 pk @ replicate (32 - length pk) (0 :: byte)) = 32
   \<and> (take 32 pka @ replicate (32 - length pka) 0 = take 32 pkb @ replicate (32 - length pkb) 0
        \<longrightarrow> fst (PubkeyToAddress g pka hrp s) = fst (PubkeyToAddress g pkb hrp s'))"
  by (simp add: PubkeyToAddress_eq)

theorem PubkeyToAddress_any_length_witness:
  "take 32 [5, 6 :: byte] @ replicate (32 - length [5, 6 :: byte]) 0
     = take 32 [5, 6, 0 :: byte] @ replicate (32 - length [5, 6, 0 :: byte]) 0
   \<and> fst (PubkeyToAddress sample_genvm [5, 6] ''sm'' \<lparr>networkHRP = ''x''\<rparr>)
     = fst (PubkeyToAddress sample_genvm [5, 6, 0] ''sm'' \<lparr>networkHRP = ''y''\<rparr>)
   \<and> fst (PubkeyToAddress sample_genvm [] ''sm'' \<lparr>networkHRP = ''x''\<rparr>)
     = fst (PubkeyToAddress sample_genvm (replicate 32 0) ''sm'' \<lparr>networkHRP = ''x''\<rparr>)
   \<and> fst (PubkeyToAddress sample_genvm (replicate 32 9 @ [1, 2]) ''sm'' \<lparr>networkHRP = ''x''\<rparr>)
     = fst (PubkeyToAddress sample_genvm (replicate 32 9) ''sm'' \<lparr>networkHRP = ''x''\<rparr>)"
proof -
  have a: "take 32 [5, 6 :: byte] @ replicate (32 - length [5, 6 :: byte]) 0
             = take 32 [5, 6, 0 :: byte] @ replicate (32 - length [5, 6, 0 :: byte]) 0"
    by (simp add: replicate_Suc [symmetric] replicate_append_same del: replicate_Suc)
  have b: "take 32 ([] :: byte list) @ replicate (32 - length ([] :: byte list)) 0
             = take 32 (replicate 32 0) @ replicate (32 - length (replicate 32 (0 :: byte))) 0"
    by simp
  have c: "take 32 (replicate 32 9 @ [1, 2 :: byte])
               @ replicate (32 - length (replicate 32 9 @ [1, 2 :: byte])) 0
             = take 32 (replicate 32 9) @ replicate (32 - length (replicate 32 (9 :: byte))) 0"
    by simp
  show ?thesis
    using a
      PubkeyToAddress_any_length [where g = sample_genvm and hrp = "''sm''"
        and s = "\<lparr>networkHRP = ''x''\<rparr>" and s' = "\<lparr>networkHRP = ''y''\<rparr>"
        and pka = "[5, 6]" and pkb = "[5, 6, 0]"]
      PubkeyToAddress_any_length [where g = sample_genvm and hrp = "''sm''"
        and s = "\<lparr>networkHRP = ''x''\<rparr>" and s' = "\<lparr>networkHRP = ''x''\<rparr>"
        and pka = "[]" and pkb = "replicate 32 0"]
      PubkeyToAddress_any_length [where g = sample_genvm and hrp = "''sm''"
        and s = "\<lparr>networkHRP = ''x''\<rparr>" and s' = "\<lparr>networkHRP = ''x''\<rparr>"
        and pka = "replicate 32 9 @ [1, 2]" and pkb = "replicate 32 9"]
    unfolding b c by blast
qed

section \<open>Properties of the mnemonic check\<close>

lemma high_not_space: "(0x80::nat) \<le> of_char x \<Longrightarrow> x \<noteq> CHR '' ''"
  by auto

lemma decode_shape:
  "(snd (DecodeRuneInString (c # cs)) = 1 \<and>
      ((of_char c :: nat) < 0x80 \<longrightarrow> fst (DecodeRuneInString (c # cs)) = of_char c))
   \<or> ((0x80::nat) \<le> of_char c \<and>
       (\<forall>x \<in> set (take (snd (DecodeRuneInString (c # cs)) - 1) cs). (0x80::nat) \<le> of_char x))"
proof (cases "(of_char c :: nat) < 0x80")
  case True
  then show ?thesis by (simp add: DecodeRuneInString.simps)
next
  case hi: False
  show ?thesis
  proof (cases cs)
    case Nil
    then show ?thesis using hi by (simp add: DecodeRuneInString.simps)
  next
    case c1: (Cons c1 r1)
    show ?thesis
    proof (cases r1)
      case Nil
      then show ?thesis using hi c1
        by (simp add: DecodeRuneInString.simps Let_def continuation_def)
    next
      case c2: (Cons c2 r2)
      show ?thesis
      proof (cases r2)
        case Nil
        then show ?thesis using hi c1 c2
          by (simp add: DecodeRuneInString.simps Let_def continuation_def numeral_2_eq_2)
      next
        case c3: (Cons c3 r3)
        then show ?thesis using hi c1 c2
          by (simp add: DecodeRuneInString.simps Let_def continuation_def numeral_2_eq_2 numeral_3_eq_3)
      qed
    qed
  qed
qed

lemma decode_nonspace_bytes:
  assumes "\<not> IsSpace (fst (DecodeRuneInString (c # cs)))"
  shows "CHR '' '' \<notin> set (c # take (snd (DecodeRuneInString (c # cs)) - 1) cs)"
proof -
  consider
    (ascii) "snd (DecodeRuneInString (c # cs)) = 1"
            "(of_char c :: nat) < 0x80 \<longrightarrow> fst (DecodeRuneInString (c # cs)) = of_char c"
  | (multi) "(0x80::nat) \<le> of_char c"
            "\<forall>x \<in> set (take (snd (DecodeRuneInString (c # cs)) - 1) cs). (0x80::nat) \<le> of_char x"
    using decode_shape [of c cs] by blast
  then show ?thesis
  proof cases
    case ascii
    have "c \<noteq> CHR '' ''"
    proof
      assume "c = CHR '' ''"
      then have "fst (DecodeRuneInString (c # cs)) = 32" using ascii(2) by simp
      then show False using assms by (simp add: IsSpace_def)
    qed
    then show ?thesis using ascii(1) by simp
  next
    case multi
    then show ?thesis using high_not_space by auto
  qed
qed

lemma fields_from_clean:
  "\<forall>c cs. \<not> f (fst (DecodeRuneInString (c # cs))) \<longrightarrow>
            CHR '' '' \<notin> set (c # take (snd (DecodeRuneInString (c # cs)) - 1) cs) \<Longrightarrow>
   CHR '' '' \<notin> set cur \<Longrightarrow>
   \<forall>fld \<in> set (FieldsFunc_from f cur s). fld \<noteq> [] \<and> CHR '' '' \<notin> set fld"
proof (induction f cur s rule: FieldsFunc_from.induct)
  case (1 f cur)
  from "1.prems"(2) show ?case by simp
next
  case (2 f cur c cs)
  let ?w = "snd (DecodeRuneInString (c # cs))"
  let ?rest = "drop (?w - 1) cs"
  note dec = "2.prems"(1)
  note cur = "2.prems"(2)
  have nil: "CHR '' '' \<notin> set ([] :: string)" by simp
  show ?case
  proof (cases "f (fst (DecodeRuneInString (c # cs)))")
    case sp: True
    show ?thesis
    proof (cases "cur = []")
      case True
      have ih: "\<forall>fld \<in> set (FieldsFunc_from f [] ?rest). fld \<noteq> [] \<and> CHR '' '' \<notin> set fld"
        by (rule "2.IH"(2) [OF sp _ dec nil]) (simp add: True)
      have "FieldsFunc_from f cur (c # cs) = FieldsFunc_from f [] ?rest"
        using sp True by simp
      then show ?thesis using ih by simp
    next
      case False
      have ih: "\<forall>fld \<in> set (FieldsFunc_from f [] ?rest). fld \<noteq> [] \<and> CHR '' '' \<notin> set fld"
        by (rule "2.IH"(1) [OF sp False dec nil])
      have "FieldsFunc_from f cur (c # cs) = cur # FieldsFunc_from f [] ?rest"
        using sp False by simp
      then show ?thesis using ih False cur by simp
    qed
  next
    case nsp: False
    have "CHR '' '' \<notin> set (c # take (?w - 1) cs)"
      using dec nsp by blast
    then have new: "CHR '' '' \<notin> set (cur @ c # take (?w - 1) cs)"
      using cur by simp
    have ih: "\<forall>fld \<in> set (FieldsFunc_from f (cur @ c # take (?w - 1) cs) ?rest).
                 fld \<noteq> [] \<and> CHR '' '' \<notin> set fld"
      by (rule "2.IH"(3) [OF nsp dec new])
    have "FieldsFunc_from f cur (c # cs) = FieldsFunc_from f (cur @ c # take (?w - 1) cs) ?rest"
      using nsp by simp
    then show ?thesis using ih by simp
  qed
qed

lemma Join_no_leading_space:
  assumes "\<forall>fld \<in> set fs. fld \<noteq> [] \<and> CHR '' '' \<notin> set fld"
  shows "Join fs '' '' \<noteq> CHR '' '' # m"
proof (cases fs)
  case Nil
  then show ?thesis by simp
next
  case (Cons x xs)
  then obtain x0 x' where x: "x = x0 # x'" "x0 \<noteq> CHR '' ''"
    using assms by (cases x) auto
  then show ?thesis using Cons by (cases xs) auto
qed

lemma Join_last:
  "\<forall>fld \<in> set fs. fld \<noteq> [] \<and> CHR '' '' \<notin> set fld \<Longrightarrow> fs \<noteq> [] \<Longrightarrow>
   Join fs '' '' \<noteq> [] \<and> last (Join fs '' '') \<noteq> CHR '' ''"
proof (induction fs "'' ''" rule: Join.induct)
  case 1
  then show ?case by simp
next
  case (2 x)
  then have "x \<noteq> []" and "CHR '' '' \<notin> set x" by auto
  then show ?case by (metis Join.simps(2) last_in_set)
next
  case (3 x y ys)
  then show ?case by simp
qed

lemma Join_no_trailing_space:
  assumes "\<forall>fld \<in> set fs. fld \<noteq> [] \<and> CHR '' '' \<notin> set fld"
  shows "Join fs '' '' \<noteq> m @ '' ''"
proof (cases "fs = []")
  case True
  then show ?thesis by simp
next
  case False
  then have "last (Join fs '' '') \<noteq> CHR '' ''"
    using Join_last [OF assms] by simp
  then show ?thesis by auto
qed

lemma skip_field:
  "CHR '' '' \<notin> set x \<Longrightarrow> x @ CHR '' '' # t = a @ CHR '' '' # CHR '' '' # b \<Longrightarrow>
   (\<exists>a'. t = a' @ CHR '' '' # CHR '' '' # b) \<or> (\<exists>t'. t = CHR '' '' # t')"
proof (induction x arbitrary: a)
  case Nil
  then show ?case by (cases a) auto
next
  case (Cons x0 x')
  then show ?case by (cases a) auto
qed

lemma Join_no_double_space:
  "\<forall>fld \<in> set fs. fld \<noteq> [] \<and> CHR '' '' \<notin> set fld \<Longrightarrow>
   Join fs '' '' \<noteq> a @ ''  '' @ b"
proof (induction fs "'' ''" arbitrary: a rule: Join.induct)
  case 1
  then show ?case by simp
next
  case (2 x)
  then have "CHR '' '' \<notin> set x" by simp
  then show ?case by auto
next
  case (3 x y ys)
  have x: "CHR '' '' \<notin> set x" and rest: "\<forall>fld \<in> set (y # ys). fld \<noteq> [] \<and> CHR '' '' \<notin> set fld"
    using "3.prems" by simp_all
  show ?case
  proof
    assume "Join (x # y # ys) '' '' = a @ ''  '' @ b"
    then have "x @ CHR '' '' # Join (y # ys) '' '' = a @ CHR '' '' # CHR '' '' # b"
      by simp
    then consider a' where "Join (y # ys) '' '' = a' @ CHR '' '' # CHR '' '' # b"
      | t' where "Join (y # ys) '' '' = CHR '' '' # t'"
      using skip_field [OF x] by blast
    then show False
    proof cases
      case 1
      then show False using "3.hyps" [OF rest, of a'] by simp
    next
      case 2
      then show False using Join_no_leading_space [OF rest] by blast
    qed
  qed
qed

section \<open>Properties of accountsFromMaster\<close>

lemma accountsFromMaster_loop_all:
  "i \<le> n \<Longrightarrow>
   \<forall>j. i \<le> j \<and> j < n \<longrightarrow> (\<exists>k. NewChildKeyPair L mk seed j = Inr k) \<Longrightarrow>
   \<exists>ks. accountsFromMaster_loop L mk seed n i acc = Inr (acc @ ks)
        \<and> length ks = nat (n - i)
        \<and> (\<forall>j < nat (n - i). NewChildKeyPair L mk seed (i + int j) = Inr (ks ! j))"
proof (induction L mk seed n i acc rule: accountsFromMaster_loop.induct)
  case (1 L mk seed n i acc)
  show ?case
  proof (cases "i < n")
    case False
    with "1.prems" show ?thesis by simp
  next
    case True
    then obtain k where k: "NewChildKeyPair L mk seed i = Inr k"
      using "1.prems" by auto
    have "\<exists>ks. accountsFromMaster_loop L mk seed n (i + 1) (acc @ [k]) = Inr ((acc @ [k]) @ ks)
        \<and> length ks = nat (n - (i + 1))
        \<and> (\<forall>j < nat (n - (i + 1)). NewChildKeyPair L mk seed ((i + 1) + int j) = Inr (ks ! j))"
      using "1.IH" [OF True k] True "1.prems" by simp
    then obtain ks where
      ks: "accountsFromMaster_loop L mk seed n (i + 1) (acc @ [k]) = Inr ((acc @ [k]) @ ks)"
        "length ks = nat (n - (i + 1))"
        "\<forall>j < nat (n - (i + 1)). NewChildKeyPair L mk seed ((i + 1) + int j) = Inr (ks ! j)"
      by blast
    have a: "accountsFromMaster_loop L mk seed n i acc = Inr (acc @ (k # ks))"
      using True k ks(1) by simp
    have b: "length (k # ks) = nat (n - i)"
      using True ks(2) by simp
    have c: "NewChildKeyPair L mk seed (i + int j) = Inr ((k # ks) ! j)" if "j < nat (n - i)" for j
    proof (cases j)
      case 0
      then show ?thesis using k by simp
    next
      case (Suc j')
      then have "j' < nat (n - (i + 1))" using that by simp
      then have "NewChildKeyPair L mk seed ((i + 1) + int j') = Inr (ks ! j')"
        using ks(3) by blast
      then show ?thesis using Suc by (simp add: ac_simps)
    qed
    show ?thesis
      using a b c by blast
  qed
qed

lemma accountsFromMaster_loop_first_failure:
  "i \<le> j \<Longrightarrow> j < n \<Longrightarrow> NewChildKeyPair L mk seed j = Inl e \<Longrightarrow>
   \<forall>l. i \<le> l \<and> l < j \<longrightarrow> (\<exists>k. NewChildKeyPair L mk seed l = Inr k) \<Longrightarrow>
   accountsFromMaster_loop L mk seed n i acc = Inl (External e)"
proof (induction L mk seed n i acc rule: accountsFromMaster_loop.induct)
  case (1 L mk seed n i acc)
  have lt: "i < n" using "1.prems" by simp
  show ?case
  proof (cases "i = j")
    case True
    then show ?thesis using lt "1.prems"(3) by simp
  next
    case False
    then have ij: "i < j" using "1.prems"(1) by simp
    then obtain k where k: "NewChildKeyPair L mk seed i = Inr k"
      using "1.prems"(4) by auto
    have "accountsFromMaster_loop L mk seed n (i + 1) (acc @ [k]) = Inl (External e)"
      using "1.IH" [OF lt k] ij "1.prems" by simp
    then show ?thesis using lt k by simp
  qed
qed

lemma accountsFromMaster_loop_error:
  "accountsFromMaster_loop L mk seed n i acc = Inl err \<Longrightarrow> \<exists>e. err = External e"
proof (induction L mk seed n i acc rule: accountsFromMaster_loop.induct)
  case (1 L mk seed n i acc)
  then show ?case
    by (cases "i < n"; cases "NewChildKeyPair L mk seed i") auto
qed

lemma accountsFromMaster_error:
  "accountsFromMaster L mk seed n = Inl err \<Longrightarrow> err \<noteq> InvalidAccountCount"
  using accountsFromMaster_loop_error [of L mk seed n 0 "[]" err]
  by (auto simp: accountsFromMaster_def split: if_splits)

lemma accountsFromMaster_zero: "accountsFromMaster L mk seed 0 = Inr []"
  by (simp add: accountsFromMaster_def)

text \<open>
  C3. For a count \<open>n\<close> from 0 to \<open>MaxAccountsPerWallet\<close>: when the derivation succeeds at
  every index below \<open>n\<close>, the call returns exactly \<open>n\<close> key pairs, the one at position
  \<open>i\<close> being the child derived with index \<open>i\<close>; when the derivation fails at an index
  and succeeds at all smaller ones, the call returns that error; and when it fails at
  any index below \<open>n\<close>, the call returns an error and no list of accounts.
\<close>

theorem accountsFromMaster_children:
  assumes "0 \<le> n" and "n \<le> MaxAccountsPerWallet L"
  shows "((\<forall>i. 0 \<le> i \<and> i < n \<longrightarrow> (\<exists>k. NewChildKeyPair L mk seed i = Inr k)) \<longrightarrow>
            (\<exists>accts. accountsFromMaster L mk seed n = Inr accts \<and> length accts = nat n
               \<and> (\<forall>i < nat n. NewChildKeyPair L mk seed (int i) = Inr (accts ! i))))
       \<and> (\<forall>j e. 0 \<le> j \<and> j < n \<and> NewChildKeyPair L mk seed j = Inl e
               \<and> (\<forall>i. 0 \<le> i \<and> i < j \<longrightarrow> (\<exists>k. NewChildKeyPair L mk seed i = Inr k))
             \<longrightarrow> accountsFromMaster L mk seed n = Inl (External e))
       \<and> ((\<exists>j. 0 \<le> j \<and> j < n \<and> (\<exists>e. NewChildKeyPair L mk seed j = Inl e))
             \<longrightarrow> (\<exists>e. accountsFromMaster L mk seed n = Inl e))"
proof -
  have run: "accountsFromMaster L mk seed n = accountsFromMaster_loop L mk seed n 0 []"
    using assms(1) by (simp add: accountsFromMaster_def)
  have all: "\<exists>accts. accountsFromMaster L mk seed n = Inr accts \<and> length accts = nat n
               \<and> (\<forall>i < nat n. NewChildKeyPair L mk seed (int i) = Inr (accts ! i))"
    if "\<forall>i. 0 \<le> i \<and> i < n \<longrightarrow> (\<exists>k. NewChildKeyPair L mk seed i = Inr k)"
    using accountsFromMaster_loop_all [OF assms(1) that, of "[]"] run by simp
  have first: "accountsFromMaster L mk seed n = Inl (External e)"
    if "0 \<le> j" "j < n" "NewChildKeyPair L mk seed j = Inl e"
       "\<forall>i. 0 \<le> i \<and> i < j \<longrightarrow> (\<exists>k. NewChildKeyPair L mk seed i = Inr k)" for j e
    using accountsFromMaster_loop_first_failure [OF that, of "[]"] run by simp
  have some: "\<exists>e. accountsFromMaster L mk seed n = Inl e"
    if "\<exists>j. 0 \<le> j \<and> j < n \<and> (\<exists>e. NewChildKeyPair L mk seed j = Inl e)"
  proof -
    define P where "P k = (int k < n \<and> (\<exists>e. NewChildKeyPair L mk seed (int k) = Inl e))" for k
    from that obtain j e where j: "0 \<le> j" "j < n" "NewChildKeyPair L mk seed j = Inl e"
      by blast
    then have "P (nat j)" by (auto simp: P_def)
    then obtain k where k: "P k" "\<forall>l < k. \<not> P l"
      using exists_least_iff [of P] by blast
    from k(1) obtain e' where e': "int k < n" "NewChildKeyPair L mk seed (int k) = Inl e'"
      by (auto simp: P_def)
    have before: "\<forall>i. 0 \<le> i \<and> i < int k \<longrightarrow> (\<exists>x. NewChildKeyPair L mk seed i = Inr x)"
    proof (intro allI impI)
      fix i :: int
      assume i: "0 \<le> i \<and> i < int k"
      then have "nat i < k" by linarith
      then have "\<not> P (nat i)" using k(2) by blast
      then have "\<not> (\<exists>e. NewChildKeyPair L mk seed i = Inl e)"
        using i e'(1) by (simp add: P_def)
      then show "\<exists>x. NewChildKeyPair L mk seed i = Inr x"
        by (cases "NewChildKeyPair L mk seed i") auto
    qed
    have "accountsFromMaster L mk seed n = Inl (External e')"
      using first [of "int k" e'] e' before by simp
    then show ?thesis by blast
  qed
  show ?thesis
    using all first some by blast
qed

theorem accountsFromMaster_children_witness:
  "(0 :: int) \<le> 2 \<and> 2 \<le> MaxAccountsPerWallet sample_keylib
   \<and> accountsFromMaster sample_keylib [76] [] 2 = Inr [[76, 0], [76, 1]]
   \<and> (0 :: int) \<le> 5 \<and> 5 \<le> MaxAccountsPerWallet sample_keylib
   \<and> accountsFromMaster sample_keylib [76] [] 5 = Inl (External ''no such child'')"
proof -
  have two: "(0 :: int) \<le> 2" "2 \<le> MaxAccountsPerWallet sample_keylib"
    and five: "(0 :: int) \<le> 5" "5 \<le> MaxAccountsPerWallet sample_keylib"
    by (simp_all add: sample_keylib_def)
  have child: "NewChildKeyPair sample_keylib kp seed i
                 = (if i < 3 then Inr (kp @ [word_of_int i]) else Inl ''no such child'')"
    for kp seed i
    by (simp add: sample_keylib_def)
  have "\<forall>i. 0 \<le> i \<and> i < 2 \<longrightarrow> (\<exists>k. NewChildKeyPair sample_keylib [76] [] i = Inr k)"
    by (simp add: child)
  then obtain accts where
    accts: "accountsFromMaster sample_keylib [76] [] 2 = Inr accts" "length accts = nat 2"
      "\<forall>i < nat 2. NewChildKeyPair sample_keylib [76] [] (int i) = Inr (accts ! i)"
    using accountsFromMaster_children [OF two, where mk = "[76]" and seed = "[]"] by blast
  have "accts ! 0 = [76, 0]" "accts ! 1 = [76, 1]"
    using accts(3) [rule_format, of 0] accts(3) [rule_format, of 1] by (simp_all add: child)
  then have "accts = [[76, 0], [76, 1]]"
    using accts(2) by (simp add: list_eq_iff_nth_eq less_Suc_eq numeral_2_eq_2)
  then have ok: "accountsFromMaster sample_keylib [76] [] 2 = Inr [[76, 0], [76, 1]]"
    using accts(1) by simp
  have "0 \<le> (3 :: int) \<and> (3 :: int) < 5
        \<and> NewChildKeyPair sample_keylib [76] [] 3 = Inl ''no such child''
        \<and> (\<forall>i. 0 \<le> i \<and> i < 3 \<longrightarrow> (\<exists>k. NewChildKeyPair sample_keylib [76] [] i = Inr k))"
    by (simp add: child)
  then have bad: "accountsFromMaster sample_keylib [76] [] 5 = Inl (External ''no such child'')"
    using accountsFromMaster_children [OF five, where mk = "[76]" and seed = "[]"] by blast
  show ?thesis
    using two five ok bad by simp
qed

section \<open>Properties of the wallet constructors\<close>

lemma walletFromMnemonicAndAccounts_ok:
  "walletFromMnemonicAndAccounts L m mk accts \<noteq> Inl err"
  by (simp add: walletFromMnemonicAndAccounts_def)

text \<open>
  C4. Both constructors return the invalid-account-count error exactly when the count is
  negative or above \<open>MaxAccountsPerWallet\<close>. For such a count this is the result for
  every phrase and for every behaviour of the validation and derivation functions (they
  are parameters of the model): the count is checked before any of them is consulted.
\<close>

theorem account_count_checked_first:
  "((NewMultiWalletFromMnemonic L m n = Inl InvalidAccountCount)
      = (n < 0 \<or> n > MaxAccountsPerWallet L))
   \<and> ((NewMultiWalletFromLedger L n = Inl InvalidAccountCount)
      = (n < 0 \<or> n > MaxAccountsPerWallet L))"
proof -
  have tail: "(case accountsFromMaster L mk seed n of
                 Inl err \<Rightarrow> Inl err
               | Inr accounts \<Rightarrow> walletFromMnemonicAndAccounts L p mk accounts)
              \<noteq> Inl InvalidAccountCount" for mk seed p
    using accountsFromMaster_error [of L mk seed n] walletFromMnemonicAndAccounts_ok [of L p mk]
    by (cases "accountsFromMaster L mk seed n") auto
  have mn: "(NewMultiWalletFromMnemonic L m n = Inl InvalidAccountCount)
              = (n < 0 \<or> n > MaxAccountsPerWallet L)"
  proof (cases "n < 0 \<or> n > MaxAccountsPerWallet L")
    case True
    then show ?thesis by (simp add: NewMultiWalletFromMnemonic_def)
  next
    case False
    have "NewMultiWalletFromMnemonic L m n \<noteq> Inl InvalidAccountCount"
    proof (cases "NewMasterKeyPair L (NewSeed L m [])")
      case (Inl e)
      then show ?thesis using False by (simp add: NewMultiWalletFromMnemonic_def Let_def)
    next
      case (Inr mk)
      then show ?thesis
        using False tail [where mk = mk and seed = "NewSeed L m []" and p = m]
        by (simp add: NewMultiWalletFromMnemonic_def Let_def)
    qed
    then show ?thesis using False by simp
  qed
  have ld: "(NewMultiWalletFromLedger L n = Inl InvalidAccountCount)
              = (n < 0 \<or> n > MaxAccountsPerWallet L)"
  proof (cases "n < 0 \<or> n > MaxAccountsPerWallet L")
    case True
    then show ?thesis by (simp add: NewMultiWalletFromLedger_def)
  next
    case False
    have "NewMultiWalletFromLedger L n \<noteq> Inl InvalidAccountCount"
    proof (cases "NewMasterKeyPairFromLedger L")
      case (Inl e)
      then show ?thesis using False by (simp add: NewMultiWalletFromLedger_def)
    next
      case (Inr mk)
      then show ?thesis
        using False tail [where mk = mk and seed = "[]" and p = "''(none)''"]
        by (simp add: NewMultiWalletFromLedger_def)
    qed
    then show ?thesis using False by simp
  qed
  show ?thesis
    using mn ld by blast
qed

theorem account_count_checked_first_witness:
  "NewMultiWalletFromMnemonic sample_keylib '' not  a phrase'' 129 = Inl InvalidAccountCount
   \<and> NewMultiWalletFromMnemonic sample_keylib '' not  a phrase'' (- 1) = Inl InvalidAccountCount
   \<and> NewMultiWalletFromMnemonic sample_keylib '' not  a phrase'' 128 \<noteq> Inl InvalidAccountCount
   \<and> NewMultiWalletFromLedger sample_keylib 129 = Inl InvalidAccountCount
   \<and> NewMultiWalletFromLedger sample_keylib (- 1) = Inl InvalidAccountCount
   \<and> NewMultiWalletFromLedger sample_keylib 0 \<noteq> Inl InvalidAccountCount"
proof -
  have max: "MaxAccountsPerWallet sample_keylib = 128"
    by (simp add: sample_keylib_def)
  show ?thesis
    using account_count_checked_first [of sample_keylib "'' not  a phrase''" 129]
      account_count_checked_first [of sample_keylib "'' not  a phrase''" "- 1"]
      account_count_checked_first [of sample_keylib "'' not  a phrase''" 128]
      account_count_checked_first [of sample_keylib "'' not  a phrase''" 0]
    unfolding max by simp
qed

text \<open>
  C6. With a valid phrase (single spaces between the words, accepted by
  \<^verbatim>\<open>bip39.IsMnemonicValid\<close>) whose master key pair is derived without error, the
  construction with count 0 succeeds and the wallet has no accounts; so does the
  construction from the ledger when the device returns the master key pair. The count 0
  is within the limit when \<open>MaxAccountsPerWallet\<close> is not negative.
\<close>

theorem wallet_with_zero_accounts:
  assumes "0 \<le> MaxAccountsPerWallet L"
  shows "accountsFromMaster L mk seed 0 = Inr []
     \<and> (m = Join (Fields m) '' '' \<and> IsMnemonicValid L m
          \<and> NewMasterKeyPair L (NewSeed L m []) = Inr mk \<longrightarrow>
        NewMultiWalletFromMnemonic L m 0 =
          Inr \<lparr>Meta = \<lparr>DisplayName = ''Main Wallet'', Created = NowTimeString L, GenesisID = []\<rparr>,
               Secrets = \<lparr>Mnemonic = m, MasterKeypair = mk, Accounts = []\<rparr>\<rparr>)
     \<and> (NewMasterKeyPairFromLedger L = Inr mk \<longrightarrow>
        NewMultiWalletFromLedger L 0 =
          Inr \<lparr>Meta = \<lparr>DisplayName = ''Main Wallet'', Created = NowTimeString L, GenesisID = []\<rparr>,
               Secrets = \<lparr>Mnemonic = ''(none)'', MasterKeypair = mk, Accounts = []\<rparr>\<rparr>)"
  using assms
  by (simp add: accountsFromMaster_zero NewMultiWalletFromMnemonic_def
      NewMultiWalletFromLedger_def walletFromMnemonicAndAccounts_def Let_def)

lemma sample_mnemonic_fields:
  "Fields sample_mnemonic =
     [''abandon'', ''abandon'', ''abandon'', ''abandon'', ''abandon'', ''abandon'',
      ''abandon'', ''abandon'', ''abandon'', ''abandon'', ''abandon'', ''about'']"
  by code_simp

lemma sample_mnemonic_single_spaces: "sample_mnemonic = Join (Fields sample_mnemonic) '' ''"
  by code_simp

lemma sample_mnemonic_valid: "IsMnemonicValid sample_keylib sample_mnemonic"
  by (simp add: sample_keylib_def sample_mnemonic_fields)

theorem wallet_with_zero_accounts_witness:
  "0 \<le> MaxAccountsPerWallet sample_keylib
   \<and> sample_mnemonic = Join (Fields sample_mnemonic) '' ''
   \<and> IsMnemonicValid sample_keylib sample_mnemonic
   \<and> NewMasterKeyPair sample_keylib (NewSeed sample_keylib sample_mnemonic []) = Inr [97, 98, 97, 110]
   \<and> NewMultiWalletFromMnemonic sample_keylib sample_mnemonic 0 =
       Inr \<lparr>Meta = \<lparr>DisplayName = ''Main Wallet'', Created = ''2022-01-01T00-00-00.000Z'',
                    GenesisID = []\<rparr>,
            Secrets = \<lparr>Mnemonic = sample_mnemonic, MasterKeypair = [97, 98, 97, 110],
                       Accounts = []\<rparr>\<rparr>
   \<and> NewMasterKeyPairFromLedger sample_keylib = Inr [76]
   \<and> NewMultiWalletFromLedger sample_keylib 0 =
       Inr \<lparr>Meta = \<lparr>DisplayName = ''Main Wallet'', Created = ''2022-01-01T00-00-00.000Z'',
                    GenesisID = []\<rparr>,
            Secrets = \<lparr>Mnemonic = ''(none)'', MasterKeypair = [76], Accounts = []\<rparr>\<rparr>"
proof -
  have max: "0 \<le> MaxAccountsPerWallet sample_keylib"
    by (simp add: sample_keylib_def)
  have now: "NowTimeString sample_keylib = ''2022-01-01T00-00-00.000Z''"
    by (simp add: sample_keylib_def)
  have master: "NewMasterKeyPair sample_keylib (NewSeed sample_keylib sample_mnemonic [])
                  = Inr [97, 98, 97, 110]"
    by (simp add: sample_keylib_def sample_mnemonic_def)
  have ledger: "NewMasterKeyPairFromLedger sample_keylib = Inr [76]"
    by (simp add: sample_keylib_def)
  have a: "NewMultiWalletFromMnemonic sample_keylib sample_mnemonic 0 =
       Inr \<lparr>Meta = \<lparr>DisplayName = ''Main Wallet'', Created = ''2022-01-01T00-00-00.000Z'',
                    GenesisID = []\<rparr>,
            Secrets = \<lparr>Mnemonic = sample_mnemonic, MasterKeypair = [97, 98, 97, 110],
                       Accounts = []\<rparr>\<rparr>"
    using wallet_with_zero_accounts [OF max, where m = sample_mnemonic and mk = "[97, 98, 97, 110]"]
      sample_mnemonic_single_spaces sample_mnemonic_valid master
    unfolding now by blast
  have b: "NewMultiWalletFromLedger sample_keylib 0 =
       Inr \<lparr>Meta = \<lparr>DisplayName = ''Main Wallet'', Created = ''2022-01-01T00-00-00.000Z'',
                    GenesisID = []\<rparr>,
            Secrets = \<lparr>Mnemonic = ''(none)'', MasterKeypair = [76], Accounts = []\<rparr>\<rparr>"
    using wallet_with_zero_accounts [OF max, where mk = "[76]"] ledger
    unfolding now by blast
  show ?thesis
    using max sample_mnemonic_single_spaces sample_mnemonic_valid master ledger a b by blast
qed

section \<open>The mnemonic check of NewMultiWalletFromMnemonic\<close>

lemma Fields_clean: "\<forall>fld \<in> set (Fields m). fld \<noteq> [] \<and> CHR '' '' \<notin> set fld"
proof -
  have dec: "\<forall>c cs. \<not> IsSpace (fst (DecodeRuneInString (c # cs))) \<longrightarrow>
               CHR '' '' \<notin> set (c # take (snd (DecodeRuneInString (c # cs)) - 1) cs)"
    using decode_nonspace_bytes by blast
  have nil: "CHR '' '' \<notin> set ([] :: string)" by simp
  show ?thesis
    unfolding Fields_def FieldsFunc_def by (rule fields_from_clean [OF dec nil])
qed

text \<open>
  C1. When the account count is within the limits, so that the phrase is examined:
  a phrase that differs from its fields rejoined with single spaces is rejected with
  the whitespace error, whatever \<^verbatim>\<open>bip39.IsMnemonicValid\<close> says about it; in particular
  every phrase with a leading space, a trailing space or two spaces in a row. A phrase
  that equals its rejoined fields and that \<^verbatim>\<open>bip39.IsMnemonicValid\<close> refuses is rejected
  with the invalid-mnemonic error.
\<close>

theorem mnemonic_whitespace_then_validity:
  assumes "0 \<le> n" and "n \<le> MaxAccountsPerWallet L"
  shows "(Join (Fields m) '' '' \<noteq> m \<longrightarrow>
            NewMultiWalletFromMnemonic L m n = Inl WhitespaceViolation)
       \<and> (Join (Fields m) '' '' = m \<and> \<not> IsMnemonicValid L m \<longrightarrow>
            NewMultiWalletFromMnemonic L m n = Inl InvalidMnemonic)
       \<and> NewMultiWalletFromMnemonic L (CHR '' '' # p) n = Inl WhitespaceViolation
       \<and> NewMultiWalletFromMnemonic L (p @ '' '') n = Inl WhitespaceViolation
       \<and> NewMultiWalletFromMnemonic L (p @ ''  '' @ q) n = Inl WhitespaceViolation"
proof -
  have ws: "NewMultiWalletFromMnemonic L x n = Inl WhitespaceViolation"
    if "Join (Fields x) '' '' \<noteq> x" for x
    using assms that by (auto simp: NewMultiWalletFromMnemonic_def)
  have inv: "NewMultiWalletFromMnemonic L m n = Inl InvalidMnemonic"
    if "Join (Fields m) '' '' = m" "\<not> IsMnemonicValid L m"
    using assms that by (simp add: NewMultiWalletFromMnemonic_def)
  have lead: "Join (Fields (CHR '' '' # p)) '' '' \<noteq> CHR '' '' # p"
    by (rule Join_no_leading_space [OF Fields_clean])
  have trail: "Join (Fields (p @ '' '')) '' '' \<noteq> p @ '' ''"
    by (rule Join_no_trailing_space [OF Fields_clean])
  have double: "Join (Fields (p @ ''  '' @ q)) '' '' \<noteq> p @ ''  '' @ q"
    by (rule Join_no_double_space [OF Fields_clean])
  show ?thesis
    using ws [of m] inv ws [OF lead] ws [OF trail] ws [OF double] by blast
qed

theorem mnemonic_whitespace_then_validity_witness:
  "(0 :: int) \<le> 1 \<and> 1 \<le> MaxAccountsPerWallet sample_keylib
   \<and> Join (Fields (sample_mnemonic @ '' '')) '' '' \<noteq> sample_mnemonic @ '' ''
   \<and> IsMnemonicValid sample_keylib (sample_mnemonic @ '' '')
   \<and> NewMultiWalletFromMnemonic sample_keylib (sample_mnemonic @ '' '') 1 = Inl WhitespaceViolation
   \<and> Join (Fields ''abandon  about'') '' '' \<noteq> ''abandon  about''
   \<and> NewMultiWalletFromMnemonic sample_keylib ''abandon  about'' 1 = Inl WhitespaceViolation
   \<and> Join (Fields ''abandon about'') '' '' = ''abandon about''
   \<and> \<not> IsMnemonicValid sample_keylib ''abandon about''
   \<and> NewMultiWalletFromMnemonic sample_keylib ''abandon about'' 1 = Inl InvalidMnemonic"
proof -
  have n: "(0 :: int) \<le> 1" "1 \<le> MaxAccountsPerWallet sample_keylib"
    by (simp_all add: sample_keylib_def)
  have t1: "Join (Fields (sample_mnemonic @ '' '')) '' '' \<noteq> sample_mnemonic @ '' ''"
    by code_simp
  have t2: "Fields (sample_mnemonic @ '' '') = Fields sample_mnemonic"
    by code_simp
  have t3: "IsMnemonicValid sample_keylib (sample_mnemonic @ '' '')"
    by (simp add: sample_keylib_def t2 sample_mnemonic_fields)
  have d1: "Join (Fields ''abandon  about'') '' '' \<noteq> ''abandon  about''"
    by code_simp
  have s1: "Join (Fields ''abandon about'') '' '' = ''abandon about''"
    by code_simp
  have s2: "Fields ''abandon about'' = [''abandon'', ''about'']"
    by code_simp
  have s3: "\<not> IsMnemonicValid sample_keylib ''abandon about''"
    by (simp add: sample_keylib_def s2)
  have r1: "NewMultiWalletFromMnemonic sample_keylib (sample_mnemonic @ '' '') 1
              = Inl WhitespaceViolation"
    using mnemonic_whitespace_then_validity [OF n, where m = "sample_mnemonic @ '' ''"] t1
    by blast
  have r2: "NewMultiWalletFromMnemonic sample_keylib ''abandon  about'' 1
              = Inl WhitespaceViolation"
    using mnemonic_whitespace_then_validity [OF n, where m = "''abandon  about''"] d1
    by blast
  have r3: "NewMultiWalletFromMnemonic sample_keylib ''abandon about'' 1 = Inl InvalidMnemonic"
    using mnemonic_whitespace_then_validity [OF n, where m = "''abandon about''"] s1 s3
    by blast
  show ?thesis
    using n t1 t3 d1 s1 s3 r1 r2 r3 by blast
qed

section \<open>Properties of the hex-encoded fields\<close>

lemma hextable_nibble: "n < 16 \<Longrightarrow> fromHexChar (hextable ! n) = Some (of_nat n)"
proof -
  assume "n < 16"
  then have "n \<in> set [0..<16]" by simp
  also have "[0..<16] = [0, 1, 2, 3, 4, 5, 6, 7, 8, 9, 10, 11, 12, 13, 14, 15 :: nat]"
    by (simp add: upt_rec)
  finally show ?thesis
    by (auto simp: hextable_def fromHexChar_def)
qed

lemma hextable_isHexDigit: "n < 16 \<Longrightarrow> isHexDigit (hextable ! n)"
proof -
  assume "n < 16"
  then have "n \<in> set [0..<16]" by simp
  also have "[0..<16] = [0, 1, 2, 3, 4, 5, 6, 7, 8, 9, 10, 11, 12, 13, 14, 15 :: nat]"
    by (simp add: upt_rec)
  finally show ?thesis
    by (auto simp: hextable_def isHexDigit_def)
qed

lemma high_nibble: "unat (drop_bit 4 (v :: byte)) < 16"
proof -
  have "unat v < 256" using unsigned_less [of v] by simp
  then have "unat v div 16 < 16" by simp
  then show ?thesis by (simp add: unat_drop_bit_eq drop_bit_eq_div unat_div)
qed

lemma low_nibble: "unat ((v :: byte) AND 0x0f) < 16"
proof -
  have "unat (v AND 15) \<le> unat (15 :: byte)"
    by (rule word_and_le1 [THEN word_le_nat_alt [THEN iffD1]])
  then show ?thesis by simp
qed

lemma nibbles: "push_bit 4 (drop_bit 4 v) OR (v AND 0x0f) = (v :: byte)"
proof -
  have m: "(15 :: byte) = mask 4" by (simp add: mask_eq_exp_minus_1)
  show ?thesis
    unfolding m by (rule bit_word_eqI) (auto simp: bit_simps)
qed

lemma fromHexChar_high: "fromHexChar (hextable ! unat (drop_bit 4 (v :: byte))) = Some (drop_bit 4 v)"
  using hextable_nibble [OF high_nibble, of v] by simp

lemma fromHexChar_low: "fromHexChar (hextable ! unat ((v :: byte) AND 0x0f)) = Some (v AND 0x0f)"
  using hextable_nibble [OF low_nibble, of v] by simp

lemma Decode_from_EncodeToString: "Decode_from dst (EncodeToString b) = (dst @ b, None)"
proof (induction b arbitrary: dst)
  case Nil
  then show ?case by simp
next
  case (Cons v b)
  have "Decode_from dst (EncodeToString (v # b))
          = Decode_from (dst @ [push_bit 4 (drop_bit 4 v) OR (v AND 0x0f)]) (EncodeToString b)"
    by (simp add: fromHexChar_high fromHexChar_low)
  then show ?case by (simp add: nibbles Cons.IH)
qed

lemma EncodeToString_hex_digits: "list_all isHexDigit (EncodeToString b)"
  by (induction b) (simp_all add: hextable_isHexDigit high_nibble low_nibble)

lemma fromHexChar_None_iff: "(fromHexChar c = None) = (\<not> isHexDigit c)"
  by (simp add: fromHexChar_def isHexDigit_def Let_def)

lemma Decode_from_ok_iff: "(snd (Decode_from dst s) = None) = wellFormedHex s"
proof (induction dst s rule: Decode_from.induct)
  case (1 dst p q src)
  show ?case
  proof (cases "fromHexChar p")
    case None
    then show ?thesis using fromHexChar_None_iff [of p] by (simp add: wellFormedHex_def)
  next
    case a: (Some a)
    show ?thesis
    proof (cases "fromHexChar q")
      case None
      then show ?thesis using a fromHexChar_None_iff [of q] by (simp add: wellFormedHex_def)
    next
      case b: (Some b)
      have "isHexDigit p" "isHexDigit q"
        using a b fromHexChar_None_iff [of p] fromHexChar_None_iff [of q] by auto
      then show ?thesis using a b "1.IH" [OF a b] by (simp add: wellFormedHex_def)
    qed
  qed
next
  case (2 dst c)
  then show ?case by (simp add: wellFormedHex_def split: option.splits)
next
  case (3 dst)
  then show ?case by (simp add: wellFormedHex_def)
qed

lemma fromHexChar_toLowerASCII: "fromHexChar (toLowerASCII c) = fromHexChar c"
proof (cases "65 \<le> (of_char c :: nat) \<and> (of_char c :: nat) \<le> 90")
  case False
  then show ?thesis by (auto simp: toLowerASCII_def Let_def)
next
  case True
  then have "(of_char (toLowerASCII c) :: nat) = of_char c + 32"
    by (simp add: toLowerASCII_def Let_def)
  then show ?thesis using True by (auto simp: fromHexChar_def Let_def)
qed

lemma fromHexChar_toUpperASCII: "fromHexChar (toUpperASCII c) = fromHexChar c"
proof (cases "97 \<le> (of_char c :: nat) \<and> (of_char c :: nat) \<le> 122")
  case False
  then show ?thesis by (auto simp: toUpperASCII_def Let_def)
next
  case True
  then have "(of_char c :: nat) - 32 < 256"
    by linarith
  then have "(of_char (toUpperASCII c) :: nat) = of_char c - 32"
    using True by (simp add: toUpperASCII_def Let_def)
  then show ?thesis using True by (auto simp: fromHexChar_def Let_def)
qed

lemma Decode_from_map:
  assumes "\<And>c. fromHexChar (f c) = fromHexChar c"
  shows "wellFormedHex s \<Longrightarrow> Decode_from dst (map f s) = Decode_from dst s"
proof (induction dst s rule: Decode_from.induct)
  case (1 dst p q src)
  from "1.prems" obtain a b where ab: "fromHexChar p = Some a" "fromHexChar q = Some b"
    using fromHexChar_None_iff [of p] fromHexChar_None_iff [of q]
    by (auto simp: wellFormedHex_def)
  have "wellFormedHex src" using "1.prems" by (simp add: wellFormedHex_def)
  then show ?case using ab "1.IH" [OF ab] by (simp add: assms)
next
  case (2 dst c)
  then show ?case by (simp add: wellFormedHex_def)
next
  case (3 dst)
  then show ?case by simp
qed

lemma wellFormedHex_EncodeToString: "wellFormedHex (EncodeToString b)"
  using Decode_from_ok_iff [of "[]" "EncodeToString b"] by (simp add: Decode_from_EncodeToString)

lemma isHexDigit_toLowerASCII: "isHexDigit (toLowerASCII c) = isHexDigit c"
  using fromHexChar_None_iff [of c] fromHexChar_None_iff [of "toLowerASCII c"]
  by (simp add: fromHexChar_toLowerASCII)

lemma wellFormedHex_toLowerASCII: "wellFormedHex (map toLowerASCII s) = wellFormedHex s"
  by (simp add: wellFormedHex_def list_all_iff isHexDigit_toLowerASCII)

lemma DecodeString_same_case:
  assumes "wellFormedHex s" and "map toLowerASCII s' = map toLowerASCII s"
  shows "DecodeString s' = DecodeString s"
proof -
  have "wellFormedHex (map toLowerASCII s')"
    using assms by (simp add: wellFormedHex_toLowerASCII)
  then have s': "wellFormedHex s'"
    by (simp add: wellFormedHex_toLowerASCII)
  have "DecodeString s' = DecodeString (map toLowerASCII s')"
    unfolding DecodeString_def
    by (rule Decode_from_map [OF fromHexChar_toLowerASCII s', symmetric])
  also have "\<dots> = DecodeString (map toLowerASCII s)"
    using assms(2) by simp
  also have "\<dots> = DecodeString s"
    unfolding DecodeString_def
    by (rule Decode_from_map [OF fromHexChar_toLowerASCII assms(1)])
  finally show ?thesis .
qed

text \<open>
  C8. Provided \<^verbatim>\<open>json.Marshal\<close> and \<^verbatim>\<open>json.Unmarshal\<close> take a string of hex digits to a
  JSON text and back to the same string, \<^verbatim>\<open>UnmarshalJSON\<close> applied to the result of
  \<^verbatim>\<open>MarshalJSON\<close> of any bytes \<open>b\<close> stores exactly \<open>b\<close>, without error, whatever the
  receiver held. Decoding takes the digits in either case: the uppercase form of an
  encoding decodes to the same bytes, and two JSON strings that are well-formed hex and
  differ in the case of their letters only decode alike. A JSON string that is not
  well-formed hex (an odd length, or a character that is no hex digit) is decoded with
  an error, and so is data that \<^verbatim>\<open>json.Unmarshal\<close> refuses.
\<close>

theorem hex_fields_roundtrip:
  assumes "\<forall>s. list_all isHexDigit s \<longrightarrow>
             (\<exists>data. Marshal J s = Inr data \<and> Unmarshal J data = Inr s)"
  shows "(\<exists>data. MarshalJSON J b = Inr data \<and> UnmarshalJSON J c data = (b, None))
     \<and> DecodeString (EncodeToString b) = (b, None)
     \<and> DecodeString (map toUpperASCII (EncodeToString b)) = (b, None)
     \<and> (Unmarshal J d = Inr s \<and> Unmarshal J d' = Inr s' \<and> wellFormedHex s
          \<and> map toLowerASCII s' = map toLowerASCII s \<longrightarrow>
        UnmarshalJSON J c d' = UnmarshalJSON J c d \<and> snd (UnmarshalJSON J c d) = None)
     \<and> (Unmarshal J d = Inr s \<and> \<not> wellFormedHex s \<longrightarrow>
        (\<exists>err. snd (UnmarshalJSON J c d) = Some err))
     \<and> (Unmarshal J d = Inl e \<longrightarrow> UnmarshalJSON J c d = (c, Some (External e)))"
proof -
  have dec: "DecodeString (EncodeToString b) = (b, None)"
    by (simp add: DecodeString_def Decode_from_EncodeToString)
  obtain data where data: "Marshal J (EncodeToString b) = Inr data"
      "Unmarshal J data = Inr (EncodeToString b)"
    using assms EncodeToString_hex_digits [of b] by blast
  have rt: "\<exists>data. MarshalJSON J b = Inr data \<and> UnmarshalJSON J c data = (b, None)"
    using data dec by (simp add: MarshalJSON_def UnmarshalJSON_def)
  have up: "DecodeString (map toUpperASCII (EncodeToString b)) = (b, None)"
    using Decode_from_map [OF fromHexChar_toUpperASCII wellFormedHex_EncodeToString, of "[]" b] dec
    by (simp add: DecodeString_def)
  have same: "UnmarshalJSON J c d' = UnmarshalJSON J c d \<and> snd (UnmarshalJSON J c d) = None"
    if "Unmarshal J d = Inr s" "Unmarshal J d' = Inr s'" "wellFormedHex s"
       "map toLowerASCII s' = map toLowerASCII s"
    using that DecodeString_same_case [OF that(3) that(4)] Decode_from_ok_iff [of "[]" s]
    by (simp add: UnmarshalJSON_def DecodeString_def)
  have bad: "\<exists>err. snd (UnmarshalJSON J c d) = Some err"
    if "Unmarshal J d = Inr s" "\<not> wellFormedHex s"
    using that Decode_from_ok_iff [of "[]" s]
    by (simp add: UnmarshalJSON_def DecodeString_def)
  have json: "UnmarshalJSON J c d = (c, Some (External e))" if "Unmarshal J d = Inl e"
    using that by (simp add: UnmarshalJSON_def)
  show ?thesis
    using rt dec up same bad json by blast
qed

lemma unat_of_char: "unat (of_char c :: byte) = of_char c"
proof -
  have "unat (of_nat (of_char c) :: byte) = of_char c mod 256"
    by (simp only: unat_of_nat) simp
  then show ?thesis
    by (simp only: of_nat_of_char of_char_mod_256)
qed

lemma char_of_unat_of_char: "map (\<lambda>b :: byte. char_of (unat b)) (map of_char s) = s"
  by (induction s) (simp_all add: unat_of_char)

lemma sample_json_Unmarshal_Marshal: "Unmarshal sample_json (0x22 # map of_char s @ [0x22]) = Inr s"
proof -
  have b: "butlast (map of_char s @ [0x22 :: byte]) = map of_char s"
    by (simp add: butlast_append)
  have n: "(0x22 :: byte) # map of_char s @ [0x22] \<noteq> [0x6e, 0x75, 0x6c, 0x6c]"
    by simp
  have l: "2 \<le> length ((0x22 :: byte) # map of_char s @ [0x22])"
    by simp
  have h: "hd ((0x22 :: byte) # map of_char s @ [0x22]) = 0x22"
      "last ((0x22 :: byte) # map of_char s @ [0x22]) = 0x22"
      "tl ((0x22 :: byte) # map of_char s @ [0x22]) = map of_char s @ [0x22]"
    by simp_all
  show ?thesis
    unfolding sample_json_def
    by (simp only: jsonlib.simps n l h b char_of_unat_of_char if_True if_False simp_thms)
qed

lemma sample_json_roundtrip:
  "\<exists>data. Marshal sample_json s = Inr data \<and> Unmarshal sample_json data = Inr s"
proof -
  have "Marshal sample_json s = Inr (0x22 # map of_char s @ [0x22])"
    by (simp add: sample_json_def)
  then show ?thesis
    using sample_json_Unmarshal_Marshal [of s] by simp
qed

theorem hex_fields_roundtrip_witness:
  "MarshalJSON sample_json [0x00, 0x1f, 0xab] = Inr ((0x22 # map of_char ''001fab'' @ [0x22]))
   \<and> UnmarshalJSON sample_json [9] ((0x22 # map of_char ''001fab'' @ [0x22])) = ([0x00, 0x1f, 0xab], None)
   \<and> UnmarshalJSON sample_json [9] ((0x22 # map of_char ''001FaB'' @ [0x22])) = ([0x00, 0x1f, 0xab], None)
   \<and> UnmarshalJSON sample_json [9] ((0x22 # map of_char ''001fa'' @ [0x22])) = ([0x00, 0x1f], Some ErrLength)
   \<and> UnmarshalJSON sample_json [9] ((0x22 # map of_char ''001g'' @ [0x22]))
       = ([0x00], Some (InvalidByteError CHR ''g''))
   \<and> UnmarshalJSON sample_json [9] (map of_char ''001f'')
       = ([9], Some (External ''json: cannot unmarshal into Go value of type string''))"
proof -
  have J: "\<forall>s. list_all isHexDigit s \<longrightarrow>
             (\<exists>data. Marshal sample_json s = Inr data \<and> Unmarshal sample_json data = Inr s)"
    using sample_json_roundtrip by blast
  have m: "MarshalJSON sample_json [0x00, 0x1f, 0xab] = Inr ((0x22 # map of_char ''001fab'' @ [0x22]))"
    by code_simp
  have u: "Unmarshal sample_json ((0x22 # map of_char ''001fab'' @ [0x22])) = Inr ''001fab''"
      "Unmarshal sample_json ((0x22 # map of_char ''001FaB'' @ [0x22])) = Inr ''001FaB''"
      "Unmarshal sample_json ((0x22 # map of_char ''001fa'' @ [0x22])) = Inr ''001fa''"
      "Unmarshal sample_json ((0x22 # map of_char ''001g'' @ [0x22])) = Inr ''001g''"
      "Unmarshal sample_json (map of_char ''001f'')
         = Inl ''json: cannot unmarshal into Go value of type string''"
    by code_simp+
  have w: "wellFormedHex ''001fab''" "map toLowerASCII ''001FaB'' = map toLowerASCII ''001fab''"
    by code_simp+
  from hex_fields_roundtrip [OF J, where b = "[0x00, 0x1f, 0xab]" and c = "[9]"]
  obtain data where data: "MarshalJSON sample_json [0x00, 0x1f, 0xab] = Inr data"
      "UnmarshalJSON sample_json [9] data = ([0x00, 0x1f, 0xab], None)"
    by blast
  have a: "UnmarshalJSON sample_json [9] ((0x22 # map of_char ''001fab'' @ [0x22])) = ([0x00, 0x1f, 0xab], None)"
    using data m by simp
  have b: "UnmarshalJSON sample_json [9] ((0x22 # map of_char ''001FaB'' @ [0x22])) = ([0x00, 0x1f, 0xab], None)"
    using hex_fields_roundtrip [OF J, where c = "[9]" and s = "''001fab''" and s' = "''001FaB''"
        and d = "(0x22 # map of_char ''001fab'' @ [0x22])" and d' = "(0x22 # map of_char ''001FaB'' @ [0x22])"]
      u(1) u(2) w a
    by metis
  have c: "UnmarshalJSON sample_json [9] ((0x22 # map of_char ''001fa'' @ [0x22])) = ([0x00, 0x1f], Some ErrLength)"
    by code_simp
  have d: "UnmarshalJSON sample_json [9] ((0x22 # map of_char ''001g'' @ [0x22]))
             = ([0x00], Some (InvalidByteError CHR ''g''))"
    by code_simp
  have e: "UnmarshalJSON sample_json [9] (map of_char ''001f'')
       = ([9], Some (External ''json: cannot unmarshal into Go value of type string''))"
    using hex_fields_roundtrip [OF J, where c = "[9]" and d = "map of_char ''001f''"
        and e = "''json: cannot unmarshal into Go value of type string''"] u(5)
    by blast
  show ?thesis
    using m a b c d e by blast
qed

end
